theory Spec2Isabelle
  imports Main "HOL-Library.AList"
begin

section \<open>The insidr debug server: registry, ingestion and broadcast\<close>

text \<open>
  A shallow embedding of \<^verbatim>\<open>DebugServer\<close> in \<^verbatim>\<open>backend/debug_server.py\<close>.
  The three dictionaries of the server object are association lists (a Python dictionary
  keeps insertion order, \<^verbatim>\<open>d[k] = v\<close> is \<open>AList.update\<close>, \<^verbatim>\<open>del d[k]\<close> is
  \<open>AList.delete\<close>, a lookup is \<open>map_of\<close>), a connection object is a number, and every
  exception the handlers can raise is a value. The network is part of the state: the
  connections on which a send raises \<^verbatim>\<open>ConnectionClosed\<close>, and the log of the messages
  that were sent, in order.
\<close>

subsection \<open>JSON values as \<^verbatim>\<open>json.loads\<close> returns them\<close>

text \<open>
  Numbers are integers here: the server never computes with a number, and a number with
  a fraction is not representable in this model. An object is the list of its items in
  order, as the dictionary \<^verbatim>\<open>json.loads\<close> returns has them, each key once; a lookup
  reads the first item of a key.
\<close>

datatype json =
    JNull
  | JBool bool
  | JNum int
  | JStr string
  | JArr "json list"
  | JObj "(string \<times> json) list"

type_synonym obj = "(string \<times> json) list"

type_synonym conn = nat

datatype error =
  JSONDecodeError | KeyError | TypeError | AttributeError | ConnectionClosed | RuntimeError

text \<open>The value of \<^verbatim>\<open>json.loads(message)\<close>: it raises \<^verbatim>\<open>JSONDecodeError\<close> or returns a value.\<close>

datatype frame = Malformed | Parsed json

text \<open>Truth value of a Python object in \<^verbatim>\<open>if device_id\<close>.\<close>

fun py_truthy :: "json \<Rightarrow> bool" where
  "py_truthy JNull = False"
| "py_truthy (JBool b) = b"
| "py_truthy (JNum n) = (n \<noteq> 0)"
| "py_truthy (JStr s) = (s \<noteq> [])"
| "py_truthy (JArr xs) = (xs \<noteq> [])"
| "py_truthy (JObj kvs) = (kvs \<noteq> [])"

text \<open>A list or a dictionary is no dictionary key: hashing it raises \<^verbatim>\<open>TypeError\<close>.\<close>

fun hashable :: "json \<Rightarrow> bool" where
  "hashable (JArr xs) = False"
| "hashable (JObj kvs) = False"
| "hashable j = True"

text \<open>\<^verbatim>\<open>True\<close> and \<^verbatim>\<open>1\<close>, \<^verbatim>\<open>False\<close> and \<^verbatim>\<open>0\<close> are the same dictionary key in Python.\<close>

fun py_key :: "json \<Rightarrow> json" where
  "py_key (JBool b) = JNum (if b then 1 else 0)"
| "py_key j = j"

text \<open>\<^verbatim>\<open>x[k]\<close> for a string \<open>k\<close>: only a dictionary can be subscripted with one.\<close>

fun getitem :: "json \<Rightarrow> string \<Rightarrow> error + json" where
  "getitem (JObj kvs) k = (case map_of kvs k of None \<Rightarrow> Inl KeyError | Some v \<Rightarrow> Inr v)"
| "getitem j k = Inl TypeError"

text \<open>\<^verbatim>\<open>x.get(k, default)\<close>: only a dictionary has the method.\<close>

fun py_get :: "json \<Rightarrow> string \<Rightarrow> json \<Rightarrow> error + json" where
  "py_get (JObj kvs) k dflt = Inr (case map_of kvs k of None \<Rightarrow> dflt | Some v \<Rightarrow> v)"
| "py_get j k dflt = Inl AttributeError"

subsection \<open>The server object and the network\<close>

record state =
  devices :: "(json \<times> conn) list"
  device_events :: "(json \<times> obj list) list"
  device_info :: "(json \<times> obj) list"
  subscribers :: "conn list"
  closed_conns :: "conn set"
  sent :: "(conn \<times> json) list"

text \<open>\<^verbatim>\<open>__init__\<close>: empty dictionaries, no subscriber; nothing is closed, nothing was sent.\<close>

definition init_server :: state where
  "init_server =
     \<lparr>devices = [], device_events = [], device_info = [], subscribers = [],
      closed_conns = {}, sent = []\<rparr>"

text \<open>
  A function that can raise returns the exception, if one was raised, and the state at
  that moment: what it had written before the exception stays written.
\<close>

type_synonym 'a raised = "error option \<times> 'a"

text \<open>\<^verbatim>\<open>await websocket.send(json.dumps(m))\<close> raises \<^verbatim>\<open>ConnectionClosed\<close> on a closed connection.\<close>

definition send :: "conn \<Rightarrow> json \<Rightarrow> state \<Rightarrow> state raised" where
  "send websocket m s =
     (if websocket \<in> closed_conns s then (Some ConnectionClosed, s)
      else (None, s\<lparr>sent := sent s @ [(websocket, m)]\<rparr>))"

text \<open>\<^verbatim>\<open>self.device_events.get(device_id, [])\<close>, for a hashable \<open>device_id\<close>.\<close>

definition get_events :: "state \<Rightarrow> json \<Rightarrow> obj list" where
  "get_events s device_id =
     (case map_of (device_events s) (py_key device_id) of None \<Rightarrow> [] | Some evs \<Rightarrow> evs)"

subsection \<open>\<^verbatim>\<open>broadcast_to_subscribers\<close>\<close>

text \<open>
  Lines 164 to 177. The loop iterates over the live set \<^verbatim>\<open>self.subscribers\<close> and waits in
  \<^verbatim>\<open>await subscriber.send(message)\<close>; while it waits, other handlers run. \<open>others\<close> holds,
  for each send in turn, what they do to the state in the meantime (nothing, once the list
  is used up). The iterator of a Python set raises \<^verbatim>\<open>RuntimeError\<close> whenever it is asked
  for the next member, or for the end, and the set no longer has the size \<open>n\<close> it had when
  the loop began; the \<^verbatim>\<open>for\<close> statement is outside the \<^verbatim>\<open>try\<close>, and only \<^verbatim>\<open>ConnectionClosed\<close>
  is caught, so that error leaves the function before the line that removes the failed
  members. The members are visited in the order of the list. One that has left in the
  meantime (while another joined, so that the size is the same) is passed over, as the
  iterator passes over its emptied slot; one that has joined in the meantime is not
  visited, where Python may or may not visit it, depending on the slot it got.
\<close>

fun meanwhile :: "(state \<Rightarrow> state) list \<Rightarrow> state \<Rightarrow> state" where
  "meanwhile [] s = s"
| "meanwhile (other # later) s = other s"

fun send_each ::
  "(state \<Rightarrow> state) list \<Rightarrow> nat \<Rightarrow> conn list \<Rightarrow> json \<Rightarrow> state \<Rightarrow> conn set \<Rightarrow>
   (state \<times> conn set) raised" where
  "send_each others n [] m s disconnected =
     (if length (subscribers s) \<noteq> n then (Some RuntimeError, s, disconnected)
      else (None, s, disconnected))"
| "send_each others n (subscriber # rest) m s disconnected =
     (if length (subscribers s) \<noteq> n then (Some RuntimeError, s, disconnected)
      else if subscriber \<notin> set (subscribers s) then send_each others n rest m s disconnected
      else case send subscriber m s of
             (None, s') \<Rightarrow>
               send_each (tl others) n rest m (meanwhile others s') disconnected
           | (Some ConnectionClosed, s') \<Rightarrow>
               send_each (tl others) n rest m (meanwhile others s') (insert subscriber disconnected)
           | (Some e, s') \<Rightarrow> (Some e, s', disconnected))"

definition broadcast_to_subscribers :: "(state \<Rightarrow> state) list \<Rightarrow> json \<Rightarrow> state \<Rightarrow> state raised" where
  "broadcast_to_subscribers others event s =
     (if subscribers s = [] then (None, s)
      else case send_each others (length (subscribers s)) (subscribers s) event s {} of
             (Some e, s', disconnected) \<Rightarrow> (Some e, s')
           | (None, s', disconnected) \<Rightarrow>
               (None, s'\<lparr>subscribers := filter (\<lambda>c. c \<notin> disconnected) (subscribers s')\<rparr>))"

subsection \<open>\<^verbatim>\<open>handle_device\<close>\<close>

text \<open>
  In the handler every broadcast is the last statement of its branch, after the
  dictionaries are written, and nothing of the handler reads the subscriber set
  afterwards. The handler is modelled with passes during which no other handler runs
  (\<open>others = []\<close>): a frame and its pass are one step.

  The local variable \<^verbatim>\<open>device_id\<close> travels with the state; \<^verbatim>\<open>None\<close> is \<open>JNull\<close>.
  \<open>now\<close> holds the readings of \<^verbatim>\<open>datetime.now().isoformat()\<close> made while one message is
  processed: the handshake makes two, an event one.

  Lines 61 to 78. The assignments happen in the order of the source: \<^verbatim>\<open>device_id\<close> is
  assigned and \<^verbatim>\<open>self.devices\<close> is written before \<^verbatim>\<open>userAgent\<close> and \<^verbatim>\<open>url\<close> are read.
\<close>

definition authenticate ::
  "conn \<Rightarrow> string \<times> string \<Rightarrow> json \<Rightarrow> json \<times> state \<Rightarrow> (json \<times> state) raised" where
  "authenticate websocket now event = (\<lambda>(device_id, s).
     case getitem event ''payload'' of
       Inl e \<Rightarrow> (Some e, device_id, s)
     | Inr payload \<Rightarrow>
        (case getitem payload ''deviceId'' of
           Inl e \<Rightarrow> (Some e, device_id, s)
         | Inr d \<Rightarrow>
            if \<not> hashable d then (Some TypeError, d, s)
            else
              let s1 = s\<lparr>devices := AList.update (py_key d) websocket (devices s)\<rparr> in
              (case getitem payload ''userAgent'' of
                 Inl e \<Rightarrow> (Some e, d, s1)
               | Inr ua \<Rightarrow>
                  (case getitem payload ''url'' of
                     Inl e \<Rightarrow> (Some e, d, s1)
                   | Inr url \<Rightarrow>
                      let info = [(''deviceId'', d), (''userAgent'', ua), (''url'', url),
                                  (''connectedAt'', JStr (fst now)), (''lastSeen'', JStr (snd now))];
                          s2 = s1\<lparr>device_info := AList.update (py_key d) info (device_info s1)\<rparr>
                      in case broadcast_to_subscribers []
                                (JObj [(''type'', JStr ''device.connected''), (''payload'', JObj info)]) s2 of
                           (r, s3) \<Rightarrow> (r, d, s3)))))"

text \<open>Line 82, \<^verbatim>\<open>event['deviceId'] = device_id\<close>: the envelope that is stored and broadcast.\<close>

definition stamped :: "json \<Rightarrow> obj \<Rightarrow> obj" where
  "stamped device_id event = AList.update ''deviceId'' device_id event"

text \<open>Lines 81 to 93: \<^verbatim>\<open>self.device_events\<close> is a \<^verbatim>\<open>defaultdict(list)\<close>.\<close>

definition store_event ::
  "string \<times> string \<Rightarrow> obj \<Rightarrow> json \<times> state \<Rightarrow> (json \<times> state) raised" where
  "store_event now event = (\<lambda>(device_id, s).
     if \<not> py_truthy device_id then (None, device_id, s)
     else
       let event' = stamped device_id event in
       if \<not> hashable device_id then (Some TypeError, device_id, s)
       else
         let k = py_key device_id;
             buf = get_events s device_id @ [event'];
             buf' = (if length buf > 1000 then drop (length buf - 1000) buf else buf);
             s1 = s\<lparr>device_events := AList.update k buf' (device_events s)\<rparr>
         in (case map_of (device_info s1) k of
               None \<Rightarrow> (Some KeyError, device_id, s1)
             | Some info \<Rightarrow>
                 let s2 = s1\<lparr>device_info :=
                            AList.update k (AList.update ''lastSeen'' (JStr (fst now)) info) (device_info s1)\<rparr>
                 in case broadcast_to_subscribers [] (JObj event') s2 of
                      (r, s3) \<Rightarrow> (r, device_id, s3)))"

text \<open>
  The body of \<^verbatim>\<open>async for message in websocket\<close>, lines 56 to 98. Whatever is raised
  inside is caught and logged there, so the loop goes on; the first component of the
  result is the exception that was logged.
\<close>

definition on_message ::
  "conn \<Rightarrow> string \<times> string \<Rightarrow> frame \<Rightarrow> json \<times> state \<Rightarrow> (json \<times> state) raised" where
  "on_message websocket now message = (\<lambda>(device_id, s).
     case message of
       Malformed \<Rightarrow> (Some JSONDecodeError, device_id, s)
     | Parsed event \<Rightarrow>
        (case py_get event ''type'' JNull of
           Inl e \<Rightarrow> (Some e, device_id, s)
         | Inr ty \<Rightarrow>
            if ty = JStr ''_auth'' then authenticate websocket now event (device_id, s)
            else (case event of
                    JObj kvs \<Rightarrow> store_event now kvs (device_id, s)
                  | _ \<Rightarrow> (Some AttributeError, device_id, s))))"

text \<open>The \<^verbatim>\<open>finally\<close> clause, lines 102 to 108; an exception raised there leaves the handler.\<close>

definition on_close :: "json \<times> state \<Rightarrow> state raised" where
  "on_close = (\<lambda>(device_id, s).
     if \<not> py_truthy device_id then (None, s)
     else if \<not> hashable device_id then (Some TypeError, s)
     else if map_of (devices s) (py_key device_id) = None then (None, s)
     else broadcast_to_subscribers []
            (JObj [(''type'', JStr ''device.disconnected''),
                   (''payload'', JObj [(''deviceId'', device_id)])])
            (s\<lparr>devices := AList.delete (py_key device_id) (devices s)\<rparr>))"

text \<open>One connection from its first message to its end, with nothing else in between.\<close>

fun device_loop ::
  "conn \<Rightarrow> ((string \<times> string) \<times> frame) list \<Rightarrow> json \<times> state \<Rightarrow> json \<times> state" where
  "device_loop websocket [] ls = ls"
| "device_loop websocket ((now, message) # rest) ls =
     device_loop websocket rest (snd (on_message websocket now message ls))"

definition handle_device ::
  "conn \<Rightarrow> ((string \<times> string) \<times> frame) list \<Rightarrow> state \<Rightarrow> state raised" where
  "handle_device websocket messages s = on_close (device_loop websocket messages (JNull, s))"

subsection \<open>\<^verbatim>\<open>handle_subscriber\<close>\<close>

text \<open>Lines 115 to 122; a failed first send ends the handler through its \<^verbatim>\<open>finally\<close> clause.\<close>

definition subscriber_close :: "conn \<Rightarrow> state \<Rightarrow> state" where
  "subscriber_close websocket s = s\<lparr>subscribers := removeAll websocket (subscribers s)\<rparr>"

definition subscriber_connect :: "conn \<Rightarrow> state \<Rightarrow> state raised" where
  "subscriber_connect websocket s =
     (let s1 = s\<lparr>subscribers := List.insert websocket (subscribers s)\<rparr> in
      case send websocket
             (JObj [(''type'', JStr ''devices.list''),
                    (''payload'', JArr (map (\<lambda>kv. JObj (snd kv)) (device_info s1)))]) s1 of
        (None, s2) \<Rightarrow> (None, s2)
      | (Some e, s2) \<Rightarrow> (Some e, subscriber_close websocket s2))"

text \<open>The body of the subscriber's loop, lines 125 to 153; what is raised inside is logged.\<close>

definition on_command :: "conn \<Rightarrow> frame \<Rightarrow> state \<Rightarrow> state raised" where
  "on_command websocket message s =
     (case message of
        Malformed \<Rightarrow> (Some JSONDecodeError, s)
      | Parsed command \<Rightarrow>
         (case getitem command ''type'' of
            Inl e \<Rightarrow> (Some e, s)
          | Inr ty \<Rightarrow>
             if ty = JStr ''device.request_events'' then
               (case getitem command ''deviceId'' of
                  Inl e \<Rightarrow> (Some e, s)
                | Inr device_id \<Rightarrow>
                   if \<not> hashable device_id then (Some TypeError, s)
                   else send websocket
                          (JObj [(''type'', JStr ''device.events''),
                                 (''payload'', JObj [(''deviceId'', device_id),
                                    (''events'', JArr (map JObj (get_events s device_id)))])]) s)
             else if ty = JStr ''device.send_command'' then
               (case getitem command ''deviceId'' of
                  Inl e \<Rightarrow> (Some e, s)
                | Inr device_id \<Rightarrow>
                   if \<not> hashable device_id then (Some TypeError, s)
                   else (case map_of (devices s) (py_key device_id) of
                           None \<Rightarrow> (None, s)
                         | Some device \<Rightarrow>
                            (case getitem command ''command'' of
                               Inl e \<Rightarrow> (Some e, s)
                             | Inr cmd \<Rightarrow>
                                (case py_get command ''payload'' (JObj []) of
                                   Inl e \<Rightarrow> (Some e, s)
                                 | Inr payload \<Rightarrow>
                                    send device
                                      (JObj [(''type'', JStr ''command''), (''command'', cmd),
                                             (''payload'', payload)]) s))))
             else (None, s)))"

subsection \<open>Several connections at once\<close>

text \<open>
  The handlers are coroutines of one event loop: between two \<^verbatim>\<open>await\<close>s a handler runs
  alone, and the dictionaries are written before the broadcast of the same message
  starts. The system below interleaves the handlers message by message. It keeps, for
  every running device handler, the value of its variable \<^verbatim>\<open>device_id\<close>. A connection
  object is accepted once; an action of a connection that has no running handler changes
  nothing. A step holds the whole processing of one message, the broadcast pass at its end
  included, with no other handler running during that pass; what the other handlers can
  do to a pass is studied on \<open>broadcast_to_subscribers\<close> itself.
\<close>

record system =
  server :: state
  device_handlers :: "(conn \<times> json) list"
  subscriber_handlers :: "conn list"
  accepted :: "conn set"

datatype action =
    DeviceConnects conn
  | DeviceSends conn "string \<times> string" frame
  | DeviceCloses conn
  | SubscriberConnects conn
  | SubscriberSends conn frame
  | SubscriberCloses conn
  | ConnectionBreaks conn

definition break_conn :: "conn \<Rightarrow> state \<Rightarrow> state" where
  "break_conn c s = s\<lparr>closed_conns := insert c (closed_conns s)\<rparr>"

fun step :: "system \<Rightarrow> action \<Rightarrow> system" where
  "step sys (DeviceConnects c) =
     (if c \<in> accepted sys then sys
      else sys\<lparr>device_handlers := AList.update c JNull (device_handlers sys),
               accepted := insert c (accepted sys)\<rparr>)"
| "step sys (DeviceSends c now message) =
     (case map_of (device_handlers sys) c of
        None \<Rightarrow> sys
      | Some device_id \<Rightarrow>
         (case on_message c now message (device_id, server sys) of
            (r, device_id', s') \<Rightarrow>
              sys\<lparr>server := s', device_handlers := AList.update c device_id' (device_handlers sys)\<rparr>))"
| "step sys (DeviceCloses c) =
     (case map_of (device_handlers sys) c of
        None \<Rightarrow> sys
      | Some device_id \<Rightarrow>
         sys\<lparr>server := snd (on_close (device_id, break_conn c (server sys))),
             device_handlers := AList.delete c (device_handlers sys)\<rparr>)"
| "step sys (SubscriberConnects c) =
     (if c \<in> accepted sys then sys
      else case subscriber_connect c (server sys) of
             (None, s') \<Rightarrow>
               sys\<lparr>server := s', subscriber_handlers := c # subscriber_handlers sys,
                   accepted := insert c (accepted sys)\<rparr>
           | (Some e, s') \<Rightarrow> sys\<lparr>server := s', accepted := insert c (accepted sys)\<rparr>)"
| "step sys (SubscriberSends c message) =
     (if c \<in> set (subscriber_handlers sys)
      then sys\<lparr>server := snd (on_command c message (server sys))\<rparr>
      else sys)"
| "step sys (SubscriberCloses c) =
     (if c \<in> set (subscriber_handlers sys)
      then sys\<lparr>server := subscriber_close c (break_conn c (server sys)),
               subscriber_handlers := removeAll c (subscriber_handlers sys)\<rparr>
      else sys)"
| "step sys (ConnectionBreaks c) = sys\<lparr>server := break_conn c (server sys)\<rparr>"

definition start :: system where
  "start = \<lparr>server = init_server, device_handlers = [], subscriber_handlers = [], accepted = {}\<rparr>"

definition run :: "action list \<Rightarrow> system" where
  "run actions = foldl step start actions"

subsection \<open>The frames the claims speak of\<close>

text \<open>
  A regular event is a JSON object whose \<^verbatim>\<open>type\<close> is not \<^verbatim>\<open>_auth\<close> (the test of line 60).
  A complete handshake is an object of type \<^verbatim>\<open>_auth\<close> whose \<^verbatim>\<open>payload\<close> is an object with
  the three fields lines 61 to 66 read; \<open>handshake_id\<close> gives the identity it declares.
  A frame binds an identity when line 61 assigns \<^verbatim>\<open>device_id\<close>.
\<close>

definition is_event :: "obj \<Rightarrow> bool" where
  "is_event kvs = (map_of kvs ''type'' \<noteq> Some (JStr ''_auth''))"

definition handshake_id :: "obj \<Rightarrow> json option" where
  "handshake_id kvs =
     (if map_of kvs ''type'' = Some (JStr ''_auth'') then
        (case map_of kvs ''payload'' of
           Some (JObj p) \<Rightarrow>
             (if map_of p ''userAgent'' \<noteq> None \<and> map_of p ''url'' \<noteq> None
              then map_of p ''deviceId'' else None)
         | _ \<Rightarrow> None)
      else None)"

definition binds_identity :: "frame \<Rightarrow> bool" where
  "binds_identity message =
     (case message of
        Parsed (JObj kvs) \<Rightarrow>
          map_of kvs ''type'' = Some (JStr ''_auth'') \<and>
          (case map_of kvs ''payload'' of
             Some (JObj p) \<Rightarrow> map_of p ''deviceId'' \<noteq> None
           | _ \<Rightarrow> False)
      | _ \<Rightarrow> False)"

text \<open>
  An \<^verbatim>\<open>_auth\<close> frame that binds an identity without being a complete handshake: its
  payload has a \<^verbatim>\<open>deviceId\<close> but lacks \<^verbatim>\<open>userAgent\<close> or \<^verbatim>\<open>url\<close>. An action is sound when it
  is not a device sending such a frame.
\<close>

definition incomplete_handshake :: "frame \<Rightarrow> bool" where
  "incomplete_handshake message =
     (case message of
        Parsed (JObj kvs) \<Rightarrow> binds_identity message \<and> handshake_id kvs = None
      | _ \<Rightarrow> False)"

fun sound :: "action \<Rightarrow> bool" where
  "sound (DeviceSends c now message) = (\<not> incomplete_handshake message)"
| "sound a = True"







subsection \<open>Notions used in the statements\<close>

text \<open>The state after a broadcast pass: every open subscriber got \<open>m\<close>, the others are gone.\<close>

definition delivered :: "json \<Rightarrow> state \<Rightarrow> state" where
  "delivered m s =
     s\<lparr>sent := sent s @ map (\<lambda>c. (c, m)) (filter (\<lambda>c. c \<notin> closed_conns s) (subscribers s)),
       subscribers := filter (\<lambda>c. c \<notin> closed_conns s) (subscribers s)\<rparr>"

text \<open>The Python slice \<^verbatim>\<open>xs[-n:]\<close> for a positive \<open>n\<close>.\<close>

definition last_n :: "nat \<Rightarrow> 'a list \<Rightarrow> 'a list" where
  "last_n n xs = drop (length xs - n) xs"

text \<open>No stored envelope is a handshake: the invariant of the ring buffers.\<close>

definition no_auth_stored :: "state \<Rightarrow> bool" where
  "no_auth_stored s = (\<forall>(k, evs) \<in> set (device_events s). \<forall>e \<in> set evs. is_event e)"

text \<open>The connection mapping holds one entry per identity at most.\<close>

definition one_entry_per_id :: "state \<Rightarrow> bool" where
  "one_entry_per_id s = distinct (map fst (devices s))"

section \<open>Broadcast\<close>

text \<open>A pass during which no other handler runs.\<close>

lemma send_each_quiet:
  assumes "length (subscribers s) = n" "set cs \<subseteq> set (subscribers s)"
  shows "send_each [] n cs m s D =
     (None, s\<lparr>sent := sent s @ map (\<lambda>c. (c, m)) (filter (\<lambda>c. c \<notin> closed_conns s) cs)\<rparr>,
      D \<union> {c \<in> set cs. c \<in> closed_conns s})"
  using assms
proof (induction cs arbitrary: s D)
  case Nil
  then show ?case by simp
next
  case (Cons c cs)
  show ?case
  proof (cases "c \<in> closed_conns s")
    case True
    then show ?thesis
      using Cons.IH [of s "insert c D"] Cons.prems by (auto simp: send_def)
  next
    case False
    then show ?thesis
      using Cons.IH [of "s\<lparr>sent := sent s @ [(c, m)]\<rparr>" D] Cons.prems by (auto simp: send_def)
  qed
qed

lemma broadcast_eq: "broadcast_to_subscribers [] m s = (None, delivered m s)"
proof (cases "subscribers s = []")
  case True
  then show ?thesis by (simp add: broadcast_to_subscribers_def delivered_def)
next
  case False
  have "filter (\<lambda>c. c \<notin> {c \<in> set (subscribers s). c \<in> closed_conns s}) (subscribers s)
        = filter (\<lambda>c. c \<notin> closed_conns s) (subscribers s)"
    by (rule filter_cong) auto
  with False show ?thesis
    by (simp add: broadcast_to_subscribers_def send_each_quiet delivered_def)
qed

lemma delivered_fields [simp]:
  "devices (delivered m s) = devices s"
  "device_events (delivered m s) = device_events s"
  "device_info (delivered m s) = device_info s"
  "closed_conns (delivered m s) = closed_conns s"
  by (simp_all add: delivered_def)

lemma get_events_delivered [simp]: "get_events (delivered m s) d = get_events s d"
  by (simp add: get_events_def)

text \<open>
  As long as no other handler changes the subscriber set during the pass, a failed
  delivery is harmless: whatever the subscriber set and whichever of its members are
  closed, the pass raises nothing, every open member receives the message once, and
  afterwards the set holds exactly the members whose delivery succeeded.
\<close>

lemma undisturbed_pass_tolerates_failed_subscribers:
  "fst (broadcast_to_subscribers [] m s) = None \<and>
   sent (snd (broadcast_to_subscribers [] m s)) =
     sent s @ map (\<lambda>c. (c, m)) (filter (\<lambda>c. c \<notin> closed_conns s) (subscribers s)) \<and>
   subscribers (snd (broadcast_to_subscribers [] m s)) =
     filter (\<lambda>c. c \<notin> closed_conns s) (subscribers s)"
  by (simp add: broadcast_eq delivered_def)

text \<open>
  Claim C7 fails on the code, because the loop of line 170 iterates over the set itself
  and not over a copy of it. First pass: the subscribers 1, 2 and 3 are all open; while
  the pass waits in the send to 1, the connection of 2 closes and its handler runs
  \<^verbatim>\<open>self.subscribers.discard(websocket)\<close> (line 158). The iterator finds a set of another
  size and raises \<^verbatim>\<open>RuntimeError\<close>, which nothing in the function catches: the error
  reaches the caller and subscriber 3, whose connection is open, never gets the message.
  Second pass: the delivery to 1 fails and 1 is marked; while the pass waits in the send
  to 2, a new subscriber 4 joins (line 115) and is sent its list. The pass ends in
  \<^verbatim>\<open>RuntimeError\<close> again, before line 177: the failed member 1 is still in the set, and 3
  got nothing.
\<close>

theorem leaving_subscriber_aborts_broadcast:
  "broadcast_to_subscribers [\<lambda>s. subscriber_close 2 (break_conn 2 s)] (JStr ''m'')
     (init_server\<lparr>subscribers := [1, 2, 3]\<rparr>)
   = (Some RuntimeError,
      init_server\<lparr>subscribers := [1, 3], closed_conns := {2}, sent := [(1, JStr ''m'')]\<rparr>) \<and>
   broadcast_to_subscribers [\<lambda>s. s, \<lambda>s. snd (subscriber_connect 4 s)] (JStr ''m'')
     (init_server\<lparr>subscribers := [1, 2, 3], closed_conns := {1}\<rparr>)
   = (Some RuntimeError,
      init_server\<lparr>subscribers := [4, 1, 2, 3], closed_conns := {1},
        sent := [(2, JStr ''m''),
                 (4, JObj [(''type'', JStr ''devices.list''), (''payload'', JArr [])])]\<rparr>)"
  by (simp add: broadcast_to_subscribers_def send_def subscriber_close_def break_conn_def
      subscriber_connect_def init_server_def Let_def)

section \<open>Writing the ring buffers\<close>


lemma store_event_id: "fst (snd (store_event now e (d, s))) = d"
  by (simp add: store_event_def broadcast_eq Let_def split: option.split)


lemma store_event_device_events:
  "device_events (snd (snd (store_event now e (d, s)))) =
     (if py_truthy d \<and> hashable d
      then AList.update (py_key d) (last_n 1000 (get_events s d @ [stamped d e])) (device_events s)
      else device_events s)"
  by (simp add: store_event_def broadcast_eq Let_def last_n_def split: option.split)

lemma authenticate_device_events:
  "device_events (snd (snd (authenticate c now ev (d, s)))) = device_events s"
  by (simp add: authenticate_def broadcast_eq Let_def split: sum.split)

lemma on_message_event:
  "is_event e \<Longrightarrow> on_message c now (Parsed (JObj e)) (d, s) = store_event now e (d, s)"
  by (auto simp: on_message_def is_event_def split: option.splits)

lemma on_message_handshake:
  "handshake_id ev = Some d \<Longrightarrow>
   on_message c now (Parsed (JObj ev)) (d0, s) = authenticate c now (JObj ev) (d0, s)"
  by (simp add: on_message_def handshake_id_def split: if_splits)


section \<open>A handshake that lacks a field\<close>

text \<open>
  Claim C2, at the frame \<^verbatim>\<open>{"type":"_auth","payload":{"deviceId":"dev1","url":"http://x"}}\<close>
  on a fresh connection of a fresh server. \<^verbatim>\<open>KeyError('userAgent')\<close> is raised and logged,
  but line 61 has bound \<^verbatim>\<open>device_id\<close> and line 62 has written the connection mapping by
  then: the connection is no longer without identity, and the registry has changed.
\<close>

theorem incomplete_handshake_registers_connection:
  "on_message 1 (''t0'', ''t1'')
     (Parsed (JObj [(''type'', JStr ''_auth''),
                    (''payload'', JObj [(''deviceId'', JStr ''dev1''), (''url'', JStr ''http://x'')])]))
     (JNull, init_server)
   = (Some KeyError, JStr ''dev1'', init_server\<lparr>devices := [(JStr ''dev1'', 1)]\<rparr>)"
  by (simp add: on_message_def authenticate_def init_server_def)

section \<open>The end of a device connection\<close>

lemma on_message_unbound:
  assumes "\<not> binds_identity m"
  shows "snd (on_message c now m (JNull, s)) = (JNull, s)"
proof (cases m)
  case Malformed
  then show ?thesis by (simp add: on_message_def)
next
  case (Parsed event)
  show ?thesis
  proof (cases event)
    case (JObj kvs)
    with Parsed assms show ?thesis
      by (auto simp: on_message_def binds_identity_def authenticate_def store_event_def
          split: option.splits json.splits)
  qed (simp_all add: Parsed on_message_def)
qed

lemma device_loop_unbound:
  "\<forall>m \<in> set msgs. \<not> binds_identity (snd m) \<Longrightarrow> device_loop c msgs (JNull, s) = (JNull, s)"
  by (induction msgs) (auto simp: on_message_unbound)

text \<open>
  A device connection none of whose frames binds an identity (no frame is a \<^verbatim>\<open>_auth\<close>
  object whose payload has a \<^verbatim>\<open>deviceId\<close>) ends, after any number of frames, with
  \<^verbatim>\<open>device_id\<close> still \<^verbatim>\<open>None\<close>: the handler raises nothing and the whole state is the one
  it started in.
\<close>

lemma unbound_connection_leaves_no_trace:
  assumes "\<forall>m \<in> set msgs. \<not> binds_identity (snd m)"
  shows "handle_device c msgs s = (None, s)"
  using device_loop_unbound [OF assms] by (simp add: handle_device_def on_close_def)

text \<open>
  Claim C9 fails on the code for a connection whose handshake lacks a field. Connection 2
  sends \<^verbatim>\<open>{"type":"_auth","payload":{"deviceId":"dev1","url":"http://x"}}\<close> and nothing
  else, while subscriber 7 listens. The handshake never completes (\<^verbatim>\<open>KeyError('userAgent')\<close>
  at line 65), but lines 61 and 62 have run: when the loop ends the handler holds
  \<^verbatim>\<open>dev1\<close> and the connection mapping has an entry for it. The \<^verbatim>\<open>finally\<close> clause then
  deletes that entry and broadcasts \<^verbatim>\<open>device.disconnected\<close> for \<^verbatim>\<open>dev1\<close> to the subscriber.
\<close>

theorem half_handshake_connection_leaves_a_trace:
  "device_loop 2
     [((''t0'', ''t1''),
       Parsed (JObj [(''type'', JStr ''_auth''),
                     (''payload'', JObj [(''deviceId'', JStr ''dev1''), (''url'', JStr ''http://x'')])]))]
     (JNull, init_server\<lparr>subscribers := [7]\<rparr>)
   = (JStr ''dev1'', init_server\<lparr>devices := [(JStr ''dev1'', 2)], subscribers := [7]\<rparr>) \<and>
   handle_device 2
     [((''t0'', ''t1''),
       Parsed (JObj [(''type'', JStr ''_auth''),
                     (''payload'', JObj [(''deviceId'', JStr ''dev1''), (''url'', JStr ''http://x'')])]))]
     (init_server\<lparr>subscribers := [7]\<rparr>)
   = (None,
      init_server\<lparr>subscribers := [7],
        sent := [(7, JObj [(''type'', JStr ''device.disconnected''),
                           (''payload'', JObj [(''deviceId'', JStr ''dev1'')])])]\<rparr>)"
  by (simp add: handle_device_def on_message_def authenticate_def on_close_def
      broadcast_eq delivered_def init_server_def)

text \<open>
  What the \<^verbatim>\<open>finally\<close> clause does when \<^verbatim>\<open>device_id\<close> is true and hashable and
  \<^verbatim>\<open>self.devices\<close> has an entry for it, in a pass that no other handler disturbs: it
  removes that entry and nothing else of the registry, sends \<^verbatim>\<open>device.disconnected\<close> with
  the \<^verbatim>\<open>deviceId\<close> to every subscriber whose connection is open, and drops the others.
\<close>

lemma on_close_unregisters:
  assumes "py_truthy d" "hashable d" "map_of (devices s) (py_key d) \<noteq> None"
  shows "on_close (d, s) =
           (None,
            s\<lparr>devices := AList.delete (py_key d) (devices s),
              sent := sent s @
                map (\<lambda>c. (c, JObj [(''type'', JStr ''device.disconnected''),
                                     (''payload'', JObj [(''deviceId'', d)])]))
                    (filter (\<lambda>c. c \<notin> closed_conns s) (subscribers s)),
              subscribers := filter (\<lambda>c. c \<notin> closed_conns s) (subscribers s)\<rparr>)"
  using assms by (auto simp: on_close_def broadcast_eq delivered_def)

text \<open>
  Claim C3 fails on the code: no statement of the server deletes from
  \<^verbatim>\<open>self.device_info\<close>. Connection 1 makes the handshake for \<^verbatim>\<open>dev1\<close> and closes; then
  subscriber 7 connects. In the state that results the connection mapping is empty, but
  the \<^verbatim>\<open>DeviceInfo\<close> entry of \<^verbatim>\<open>dev1\<close> is still there, and the \<^verbatim>\<open>devices.list\<close> that line 119
  sends to the subscriber (the comment of line 118 reads \<^verbatim>\<open># Send list of connected
  devices\<close>) names the device that is gone.
\<close>

theorem device_info_survives_disconnect:
  "server (run
     [DeviceConnects 1,
      DeviceSends 1 (''t0'', ''t1'')
        (Parsed (JObj [(''type'', JStr ''_auth''),
           (''payload'', JObj [(''deviceId'', JStr ''dev1''), (''userAgent'', JStr ''ua''), (''url'', JStr ''u'')])])),
      DeviceCloses 1,
      SubscriberConnects 7])
   = init_server
       \<lparr>device_info := [(JStr ''dev1'',
            [(''deviceId'', JStr ''dev1''), (''userAgent'', JStr ''ua''), (''url'', JStr ''u''),
             (''connectedAt'', JStr ''t0''), (''lastSeen'', JStr ''t1'')])],
        subscribers := [7], closed_conns := {1},
        sent := [(7, JObj [(''type'', JStr ''devices.list''),
                           (''payload'', JArr [JObj
            [(''deviceId'', JStr ''dev1''), (''userAgent'', JStr ''ua''), (''url'', JStr ''u''),
             (''connectedAt'', JStr ''t0''), (''lastSeen'', JStr ''t1'')]])])]\<rparr>"
  by (simp add: run_def start_def init_server_def on_message_def authenticate_def on_close_def
      break_conn_def subscriber_connect_def send_def broadcast_eq delivered_def Let_def)

section \<open>Two connections with one identity\<close>

text \<open>
  What holds of the connection mapping: a complete handshake writes the connection that
  made it over whatever entry the identity had, and in no state that the system reaches
  does the mapping hold two entries for one identity.
\<close>

lemma handshake_registers_connection:
  assumes "handshake_id ev = Some d" "hashable d"
  shows "map_of (devices (snd (snd (on_message c now (Parsed (JObj ev)) (d0, s))))) (py_key d) = Some c"
  using assms
  by (auto simp: on_message_handshake handshake_id_def authenticate_def broadcast_eq Let_def
      AList.update_conv' split: option.splits json.splits if_splits)

lemma authenticate_one_entry:
  "one_entry_per_id s \<Longrightarrow> one_entry_per_id (snd (snd (authenticate c now ev (d, s))))"
  by (simp add: one_entry_per_id_def authenticate_def broadcast_eq Let_def AList.distinct_update
      split: sum.split)

lemma store_event_devices: "devices (snd (snd (store_event now e (d, s)))) = devices s"
  by (simp add: store_event_def broadcast_eq Let_def split: option.split)

lemma on_message_one_entry:
  "one_entry_per_id s \<Longrightarrow> one_entry_per_id (snd (snd (on_message c now m (d, s))))"
  using authenticate_one_entry [of s c now _ d]
  by (simp add: on_message_def split: frame.split sum.split json.split)
     (simp add: one_entry_per_id_def store_event_devices)

lemma on_close_one_entry:
  "one_entry_per_id s \<Longrightarrow> one_entry_per_id (snd (on_close (d, s)))"
  by (simp add: one_entry_per_id_def on_close_def broadcast_eq AList.distinct_delete)

lemma on_command_devices: "devices (snd (on_command c m s)) = devices s"
  by (simp add: on_command_def send_def split: frame.split sum.split option.split)

lemma subscriber_connect_devices: "devices (snd (subscriber_connect c s)) = devices s"
  by (simp add: subscriber_connect_def subscriber_close_def send_def Let_def)

lemma step_one_entry:
  assumes "one_entry_per_id (server sys)"
  shows "one_entry_per_id (server (step sys a))"
proof (cases a)
  case (DeviceSends c now m)
  show ?thesis
  proof (cases "map_of (device_handlers sys) c")
    case None
    with assms show ?thesis by (simp add: DeviceSends)
  next
    case (Some d)
    then show ?thesis
      using on_message_one_entry [OF assms, of c now m d]
      by (auto simp: DeviceSends split: prod.split)
  qed
next
  case (DeviceCloses c)
  have "one_entry_per_id (break_conn c (server sys))"
    using assms by (simp add: one_entry_per_id_def break_conn_def)
  then have "one_entry_per_id (snd (on_close (d, break_conn c (server sys))))" for d
    by (rule on_close_one_entry)
  with assms show ?thesis by (simp add: DeviceCloses split: option.split)
next
  case (SubscriberConnects c)
  have "one_entry_per_id (snd (subscriber_connect c (server sys)))"
    using assms by (simp add: one_entry_per_id_def subscriber_connect_devices)
  with assms show ?thesis
    by (auto simp: SubscriberConnects split: prod.split option.split)
next
  case (SubscriberSends c m)
  have "one_entry_per_id (snd (on_command c m (server sys)))"
    using assms by (simp add: one_entry_per_id_def on_command_devices)
  with assms show ?thesis by (simp add: SubscriberSends)
next
  case (SubscriberCloses c)
  with assms show ?thesis
    by (simp add: one_entry_per_id_def subscriber_close_def break_conn_def)
next
  case (ConnectionBreaks c)
  with assms show ?thesis by (simp add: one_entry_per_id_def break_conn_def)
next
  case (DeviceConnects c)
  with assms show ?thesis by simp
qed

lemma foldl_step_one_entry:
  "one_entry_per_id (server sys) \<Longrightarrow> one_entry_per_id (server (foldl step sys actions))"
  by (induction actions arbitrary: sys) (simp_all add: step_one_entry)

lemma mapping_has_one_entry_per_identity:
  "distinct (map fst (devices (server (run actions))))"
proof -
  have "one_entry_per_id (server start)"
    by (simp add: start_def init_server_def one_entry_per_id_def)
  then have "one_entry_per_id (server (run actions))"
    unfolding run_def by (rule foldl_step_one_entry)
  then show ?thesis by (simp add: one_entry_per_id_def)
qed

text \<open>
  Claim C1, at the run: connection 1 makes the handshake for \<^verbatim>\<open>dev1\<close>, connection 2 makes
  the handshake for \<^verbatim>\<open>dev1\<close>, connection 1 ends. The \<^verbatim>\<open>finally\<close> clause of connection 1
  finds \<^verbatim>\<open>dev1\<close> in \<^verbatim>\<open>self.devices\<close> and deletes the entry, which is the one of connection
  2 by then: the mapping is empty although the handler of connection 2 is running and
  bound to \<^verbatim>\<open>dev1\<close>.
\<close>

theorem older_connection_close_unregisters_newer:
  "devices (server (run
      [DeviceConnects 1,
       DeviceSends 1 (''t0'', ''t1'') (Parsed (JObj [(''type'', JStr ''_auth''),
         (''payload'', JObj [(''deviceId'', JStr ''dev1''), (''userAgent'', JStr ''ua''), (''url'', JStr ''u'')])])),
       DeviceConnects 2,
       DeviceSends 2 (''t2'', ''t3'') (Parsed (JObj [(''type'', JStr ''_auth''),
         (''payload'', JObj [(''deviceId'', JStr ''dev1''), (''userAgent'', JStr ''ua''), (''url'', JStr ''u'')])])),
       DeviceCloses 1])) = [] \<and>
   device_handlers (run
      [DeviceConnects 1,
       DeviceSends 1 (''t0'', ''t1'') (Parsed (JObj [(''type'', JStr ''_auth''),
         (''payload'', JObj [(''deviceId'', JStr ''dev1''), (''userAgent'', JStr ''ua''), (''url'', JStr ''u'')])])),
       DeviceConnects 2,
       DeviceSends 2 (''t2'', ''t3'') (Parsed (JObj [(''type'', JStr ''_auth''),
         (''payload'', JObj [(''deviceId'', JStr ''dev1''), (''userAgent'', JStr ''ua''), (''url'', JStr ''u'')])])),
       DeviceCloses 1]) = [(2, JStr ''dev1'')]"
  by (simp add: run_def start_def init_server_def on_message_def authenticate_def
      broadcast_eq delivered_def on_close_def break_conn_def)

section \<open>Handshakes are never stored\<close>

lemma set_update_cases:
  "(k', v') \<in> set (AList.update k v al) \<Longrightarrow> (k', v') = (k, v) \<or> (k', v') \<in> set al"
  by (induction al) (auto split: if_splits)

lemma is_event_stamped [simp]: "is_event (stamped d e) = is_event e"
  by (simp add: is_event_def stamped_def AList.update_conv')

lemma get_events_stored:
  assumes "no_auth_stored s" "e \<in> set (get_events s d)"
  shows "is_event e"
proof (cases "map_of (device_events s) (py_key d)")
  case None
  with assms(2) show ?thesis by (simp add: get_events_def)
next
  case (Some evs)
  then have "(py_key d, evs) \<in> set (device_events s)" by (rule map_of_SomeD)
  with assms Some show ?thesis by (auto simp: no_auth_stored_def get_events_def)
qed

lemma store_event_no_auth:
  assumes "no_auth_stored s" "is_event e"
  shows "no_auth_stored (snd (snd (store_event now e (d, s))))"
proof (cases "py_truthy d \<and> hashable d")
  case False
  then have "device_events (snd (snd (store_event now e (d, s)))) = device_events s"
    by (auto simp: store_event_device_events)
  with assms(1) show ?thesis by (simp add: no_auth_stored_def)
next
  case True
  let ?buf = "last_n 1000 (get_events s d @ [stamped d e])"
  have eq: "device_events (snd (snd (store_event now e (d, s)))) =
            AList.update (py_key d) ?buf (device_events s)"
    using True by (simp add: store_event_device_events)
  have buf: "is_event x" if "x \<in> set ?buf" for x
  proof -
    from that have "x \<in> set (get_events s d @ [stamped d e])"
      unfolding last_n_def by (rule in_set_dropD)
    then show ?thesis using assms get_events_stored [OF assms(1)] by auto
  qed
  show ?thesis
    unfolding no_auth_stored_def eq
  proof (intro ballI, clarify)
    fix k evs x
    assume a: "(k, evs) \<in> set (AList.update (py_key d) ?buf (device_events s))" and x: "x \<in> set evs"
    from set_update_cases [OF a] show "is_event x"
    proof
      assume "(k, evs) = (py_key d, ?buf)"
      with x buf show ?thesis by simp
    next
      assume "(k, evs) \<in> set (device_events s)"
      with assms(1) x show ?thesis by (auto simp: no_auth_stored_def)
    qed
  qed
qed

lemma on_close_device_events: "device_events (snd (on_close (d, s))) = device_events s"
  by (simp add: on_close_def broadcast_eq)

lemma on_command_device_events: "device_events (snd (on_command c m s)) = device_events s"
  by (simp add: on_command_def send_def split: frame.split sum.split option.split)

lemma subscriber_connect_device_events:
  "device_events (snd (subscriber_connect c s)) = device_events s"
  by (simp add: subscriber_connect_def subscriber_close_def send_def Let_def)

lemma no_auth_stored_cong:
  "device_events t = device_events u \<Longrightarrow> no_auth_stored u \<Longrightarrow> no_auth_stored t"
  by (simp add: no_auth_stored_def)

lemma on_message_no_auth:
  assumes "no_auth_stored s"
  shows "no_auth_stored (snd (snd (on_message c now m (d, s))))"
proof (cases m)
  case Malformed
  with assms show ?thesis by (simp add: on_message_def)
next
  case (Parsed event)
  show ?thesis
  proof (cases event)
    case (JObj kvs)
    show ?thesis
    proof (cases "is_event kvs")
      case True
      then show ?thesis
        using store_event_no_auth [OF assms True] by (simp add: Parsed JObj on_message_event)
    next
      case False
      then have "on_message c now m (d, s) = authenticate c now event (d, s)"
        by (auto simp: Parsed JObj on_message_def is_event_def)
      then show ?thesis
        using assms by (auto intro: no_auth_stored_cong simp: authenticate_device_events)
    qed
  qed (use assms in \<open>simp_all add: Parsed on_message_def\<close>)
qed

lemma step_no_auth:
  assumes "no_auth_stored (server sys)"
  shows "no_auth_stored (server (step sys a))"
proof (cases a)
  case (DeviceSends c now m)
  show ?thesis
  proof (cases "map_of (device_handlers sys) c")
    case None
    with assms show ?thesis by (simp add: DeviceSends)
  next
    case (Some d)
    then show ?thesis
      using on_message_no_auth [OF assms, of c now m d]
      by (auto simp: DeviceSends split: prod.split)
  qed
next
  case (DeviceCloses c)
  have "no_auth_stored (snd (on_close (d, break_conn c (server sys))))" for d
    using assms by (auto intro: no_auth_stored_cong simp: on_close_device_events break_conn_def)
  with assms show ?thesis by (simp add: DeviceCloses split: option.split)
next
  case (SubscriberConnects c)
  have "no_auth_stored (snd (subscriber_connect c (server sys)))"
    using assms by (auto intro: no_auth_stored_cong simp: subscriber_connect_device_events)
  with assms show ?thesis
    by (auto simp: SubscriberConnects split: prod.split option.split)
next
  case (SubscriberSends c m)
  have "no_auth_stored (snd (on_command c m (server sys)))"
    using assms by (auto intro: no_auth_stored_cong simp: on_command_device_events)
  with assms show ?thesis by (simp add: SubscriberSends)
next
  case (SubscriberCloses c)
  with assms show ?thesis
    by (simp add: no_auth_stored_def subscriber_close_def break_conn_def)
next
  case (ConnectionBreaks c)
  with assms show ?thesis by (simp add: no_auth_stored_def break_conn_def)
next
  case (DeviceConnects c)
  with assms show ?thesis by simp
qed

lemma foldl_step_no_auth:
  "no_auth_stored (server sys) \<Longrightarrow> no_auth_stored (server (foldl step sys actions))"
  by (induction actions arbitrary: sys) (simp_all add: step_no_auth)

text \<open>
  Claim C6. In every state the system reaches from the start, by any interleaving of
  device and subscriber connections, frames, closes and broken connections, no envelope
  of any ring buffer has the type \<^verbatim>\<open>_auth\<close>.
\<close>

theorem auth_frames_never_stored:
  assumes "(k, evs) \<in> set (device_events (server (run actions)))" and "e \<in> set evs"
  shows "map_of e ''type'' \<noteq> Some (JStr ''_auth'')"
proof -
  have "no_auth_stored (server start)"
    by (simp add: start_def init_server_def no_auth_stored_def)
  then have "no_auth_stored (server (run actions))"
    unfolding run_def by (rule foldl_step_no_auth)
  with assms show ?thesis
    by (auto simp: no_auth_stored_def is_event_def)
qed

theorem auth_frames_never_stored_witness:
  "(JStr ''dev1'', [[(''type'', JStr ''log''), (''deviceId'', JStr ''dev1'')]]) \<in>
     set (device_events (server (run
       [DeviceConnects 1,
        DeviceSends 1 (''t0'', ''t1'') (Parsed (JObj [(''type'', JStr ''_auth''),
          (''payload'', JObj [(''deviceId'', JStr ''dev1''), (''userAgent'', JStr ''ua''), (''url'', JStr ''u'')])])),
        DeviceSends 1 (''t2'', ''t2'') (Parsed (JObj [(''type'', JStr ''log'')]))]))) \<and>
   [(''type'', JStr ''log''), (''deviceId'', JStr ''dev1'')] \<in>
     set [[(''type'', JStr ''log''), (''deviceId'', JStr ''dev1'')]] \<and>
   map_of [(''type'', JStr ''log''), (''deviceId'', JStr ''dev1'')] ''type'' \<noteq> Some (JStr ''_auth'')"
proof -
  let ?acts = "[DeviceConnects 1,
        DeviceSends 1 (''t0'', ''t1'') (Parsed (JObj [(''type'', JStr ''_auth''),
          (''payload'', JObj [(''deviceId'', JStr ''dev1''), (''userAgent'', JStr ''ua''), (''url'', JStr ''u'')])])),
        DeviceSends 1 (''t2'', ''t2'') (Parsed (JObj [(''type'', JStr ''log'')]))]"
  let ?e = "[(''type'', JStr ''log''), (''deviceId'', JStr ''dev1'')]"
  have h1: "(JStr ''dev1'', [?e]) \<in> set (device_events (server (run ?acts)))"
    by (simp add: run_def start_def init_server_def on_message_def authenticate_def store_event_def
        stamped_def get_events_def broadcast_eq delivered_def Let_def)
  have h2: "?e \<in> set [?e]" by simp
  from auth_frames_never_stored [OF h1 h2] h1 h2 show ?thesis by blast
qed

section \<open>Commands of a subscriber\<close>

text \<open>
  Claim C8. A command that names a \<^verbatim>\<open>deviceId\<close> the registry does not know raises nothing.
  \<^verbatim>\<open>device.request_events\<close> for an identity without a ring buffer is answered, on the open
  connection of the subscriber that asked, with \<^verbatim>\<open>device.events\<close> carrying the empty list,
  and nothing else changes. \<^verbatim>\<open>device.send_command\<close> for an identity without a connection
  mapping leaves the whole state as it is: nothing is sent to anybody.
\<close>

theorem unknown_device_reference_is_harmless:
  assumes "map_of kvs ''deviceId'' = Some d" "hashable d"
  shows "(map_of kvs ''type'' = Some (JStr ''device.request_events'') \<and>
          map_of (device_events s) (py_key d) = None \<and> c \<notin> closed_conns s \<longrightarrow>
            on_command c (Parsed (JObj kvs)) s =
              (None, s\<lparr>sent := sent s @
                 [(c, JObj [(''type'', JStr ''device.events''),
                            (''payload'', JObj [(''deviceId'', d), (''events'', JArr [])])])]\<rparr>)) \<and>
         (map_of kvs ''type'' = Some (JStr ''device.send_command'') \<and>
          map_of (devices s) (py_key d) = None \<longrightarrow>
            on_command c (Parsed (JObj kvs)) s = (None, s))"
  using assms by (simp add: on_command_def send_def get_events_def)

theorem unknown_device_reference_is_harmless_witness:
  "on_command 7
     (Parsed (JObj [(''type'', JStr ''device.request_events''), (''deviceId'', JStr ''ghost'')]))
     (init_server\<lparr>devices := [(JStr ''dev1'', 1)], subscribers := [7]\<rparr>)
   = (None, init_server\<lparr>devices := [(JStr ''dev1'', 1)], subscribers := [7],
        sent := [(7, JObj [(''type'', JStr ''device.events''),
                           (''payload'', JObj [(''deviceId'', JStr ''ghost''), (''events'', JArr [])])])]\<rparr>) \<and>
   on_command 7
     (Parsed (JObj [(''type'', JStr ''device.send_command''), (''deviceId'', JStr ''ghost''),
                    (''command'', JStr ''reload'')]))
     (init_server\<lparr>devices := [(JStr ''dev1'', 1)], subscribers := [7]\<rparr>)
   = (None, init_server\<lparr>devices := [(JStr ''dev1'', 1)], subscribers := [7]\<rparr>)"
  using
    unknown_device_reference_is_harmless
      [of "[(''type'', JStr ''device.request_events''), (''deviceId'', JStr ''ghost'')]" "JStr ''ghost''"
          "init_server\<lparr>devices := [(JStr ''dev1'', 1)], subscribers := [7]\<rparr>" 7]
    unknown_device_reference_is_harmless
      [of "[(''type'', JStr ''device.send_command''), (''deviceId'', JStr ''ghost''), (''command'', JStr ''reload'')]"
          "JStr ''ghost''" "init_server\<lparr>devices := [(JStr ''dev1'', 1)], subscribers := [7]\<rparr>" 7]
  by (simp add: init_server_def)

text \<open>
  Claim C10. \<^verbatim>\<open>device.send_command\<close> with a \<^verbatim>\<open>command\<close> but without a \<^verbatim>\<open>payload\<close>, for an
  identity whose connection mapping holds an open connection: that connection is sent
  \<^verbatim>\<open>{"type": "command", "command": ..., "payload": {}}\<close>, and nothing else changes.
\<close>

theorem command_without_payload_is_forwarded:
  assumes "map_of kvs ''type'' = Some (JStr ''device.send_command'')"
    and "map_of kvs ''deviceId'' = Some d" "hashable d"
    and "map_of kvs ''command'' = Some cmd"
    and "map_of kvs ''payload'' = None"
    and "map_of (devices s) (py_key d) = Some device" "device \<notin> closed_conns s"
  shows "on_command c (Parsed (JObj kvs)) s =
           (None, s\<lparr>sent := sent s @
              [(device, JObj [(''type'', JStr ''command''), (''command'', cmd), (''payload'', JObj [])])]\<rparr>)"
  using assms by (simp add: on_command_def send_def)

theorem command_without_payload_is_forwarded_witness:
  "on_command 7
     (Parsed (JObj [(''type'', JStr ''device.send_command''), (''deviceId'', JStr ''dev1''),
                    (''command'', JStr ''reload'')]))
     (init_server\<lparr>devices := [(JStr ''dev1'', 1)], subscribers := [7]\<rparr>)
   = (None, init_server\<lparr>devices := [(JStr ''dev1'', 1)], subscribers := [7],
        sent := [(1, JObj [(''type'', JStr ''command''), (''command'', JStr ''reload''),
                           (''payload'', JObj [])])]\<rparr>)"
  using command_without_payload_is_forwarded
      [of "[(''type'', JStr ''device.send_command''), (''deviceId'', JStr ''dev1''), (''command'', JStr ''reload'')]"
          "JStr ''dev1''" "JStr ''reload''" "init_server\<lparr>devices := [(JStr ''dev1'', 1)], subscribers := [7]\<rparr>" 1 7]
  by (simp add: init_server_def)

section \<open>The history of a device\<close>















text \<open>
  In a run of sound actions the handler of a connection holds an identity only if that
  connection has sent a complete handshake declaring it: there, the connections bound to
  \<open>d\<close> are connections that completed a handshake for \<open>d\<close>.
\<close>

lemma authenticate_binds:
  "handshake_id ev = Some d \<Longrightarrow> fst (snd (authenticate c now (JObj ev) (d0, s))) = d"
  by (auto simp: handshake_id_def authenticate_def broadcast_eq Let_def
      split: option.splits json.splits if_splits)

lemma on_message_keeps_identity:
  assumes "\<not> binds_identity m"
  shows "fst (snd (on_message c now m (b, s))) = b"
proof (cases m)
  case Malformed
  then show ?thesis by (simp add: on_message_def)
next
  case (Parsed event)
  show ?thesis
  proof (cases event)
    case (JObj kvs)
    with Parsed assms show ?thesis
      by (auto simp: on_message_def binds_identity_def authenticate_def store_event_id
          split: option.splits json.splits)
  qed (simp_all add: Parsed on_message_def)
qed

lemma sound_frame_binding:
  assumes "\<not> incomplete_handshake m"
  shows "fst (snd (on_message c now m (b, s))) =
           (case m of
              Parsed (JObj kvs) \<Rightarrow> (case handshake_id kvs of Some d \<Rightarrow> d | None \<Rightarrow> b)
            | _ \<Rightarrow> b)"
proof (cases "\<exists>kvs d. m = Parsed (JObj kvs) \<and> handshake_id kvs = Some d")
  case True
  then obtain kvs d where "m = Parsed (JObj kvs)" "handshake_id kvs = Some d" by blast
  then show ?thesis by (simp add: on_message_handshake authenticate_binds)
next
  case False
  then have "\<not> binds_identity m"
    using assms by (auto simp: incomplete_handshake_def binds_identity_def split: frame.splits json.splits)
  then have "fst (snd (on_message c now m (b, s))) = b" by (rule on_message_keeps_identity)
  then show ?thesis using False by (auto split: frame.split json.split option.split)
qed

lemma step_binding:
  assumes "sound a" and "map_of (device_handlers (step sys a)) c = Some d"
  shows "map_of (device_handlers sys) c = Some d \<or> d = JNull \<or>
         (\<exists>now kvs. a = DeviceSends c now (Parsed (JObj kvs)) \<and> handshake_id kvs = Some d)"
proof (cases a)
  case (DeviceConnects c')
  then show ?thesis
    using assms(2) by (auto simp: update_conv' split: if_splits)
next
  case (DeviceSends c' now m)
  show ?thesis
  proof (cases "map_of (device_handlers sys) c'")
    case None
    then show ?thesis using assms(2) DeviceSends by simp
  next
    case (Some b)
    let ?b' = "fst (snd (on_message c' now m (b, server sys)))"
    have h: "device_handlers (step sys a) = AList.update c' ?b' (device_handlers sys)"
      using DeviceSends Some by (simp split: prod.split)
    show ?thesis
    proof (cases "c = c'")
      case False
      then show ?thesis using assms(2) h by (simp add: update_conv')
    next
      case True
      then have d: "d = ?b'" using assms(2) h by (simp add: update_conv')
      have b': "?b' = (case m of
                         Parsed (JObj kvs) \<Rightarrow> (case handshake_id kvs of Some d \<Rightarrow> d | None \<Rightarrow> b)
                       | _ \<Rightarrow> b)"
        using assms(1) DeviceSends by (intro sound_frame_binding) simp
      show ?thesis
      proof (cases "\<exists>kvs d'. m = Parsed (JObj kvs) \<and> handshake_id kvs = Some d'")
        case True
        then obtain kvs d' where m: "m = Parsed (JObj kvs)" "handshake_id kvs = Some d'" by blast
        then have "d = d'" using d b' by simp
        then show ?thesis using m DeviceSends \<open>c = c'\<close> by simp
      next
        case False
        then have "?b' = b" using b' by (auto split: frame.split json.split option.split)
        then show ?thesis using d Some \<open>c = c'\<close> by simp
      qed
    qed
  qed
next
  case (DeviceCloses c')
  then show ?thesis
    using assms(2) by (auto simp: delete_conv' split: option.splits if_splits)
next
  case (SubscriberConnects c')
  then show ?thesis
    using assms(2) by (auto split: if_splits prod.splits option.splits)
next
  case (SubscriberSends c' m)
  then show ?thesis using assms(2) by (auto split: if_splits)
next
  case (SubscriberCloses c')
  then show ?thesis using assms(2) by (auto split: if_splits)
next
  case (ConnectionBreaks c')
  then show ?thesis using assms(2) by simp
qed

lemma binding_comes_from_handshake:
  assumes "\<forall>a \<in> set actions. sound a"
    and "map_of (device_handlers (run actions)) c = Some d" and "d \<noteq> JNull"
  shows "\<exists>now kvs. DeviceSends c now (Parsed (JObj kvs)) \<in> set actions \<and> handshake_id kvs = Some d"
  using assms
proof (induction actions arbitrary: d rule: rev_induct)
  case Nil
  then show ?case by (simp add: run_def start_def)
next
  case (snoc a xs)
  have run: "run (xs @ [a]) = step (run xs) a" by (simp add: run_def)
  have "sound a" using snoc.prems(1) by simp
  from step_binding [OF this snoc.prems(2) [unfolded run]] snoc.prems(3)
  consider "map_of (device_handlers (run xs)) c = Some d"
    | now kvs where "a = DeviceSends c now (Parsed (JObj kvs))" "handshake_id kvs = Some d"
    by blast
  then show ?case
  proof cases
    case 1
    then obtain now kvs where "DeviceSends c now (Parsed (JObj kvs)) \<in> set xs" "handshake_id kvs = Some d"
      using snoc.IH [of d] snoc.prems by auto
    then show ?thesis by (intro exI [of _ now] exI [of _ kvs]) simp
  next
    case 2
    then show ?thesis by (intro exI [of _ now] exI [of _ kvs]) simp
  qed
qed







section \<open>A run from handshake to command\<close>

text \<open>
  The model at work: a device makes its handshake and sends three events; a subscriber
  connects, is sent the list of devices, asks for the events of the device and sends it a
  command. The log holds what was sent to whom: the list and the replay to the
  subscriber, the command to the device.
\<close>

lemma scenario_replay:
  "sent (server (run
     [DeviceConnects 1,
      DeviceSends 1 (''t0'', ''t1'') (Parsed (JObj [(''type'', JStr ''_auth''),
        (''payload'', JObj [(''deviceId'', JStr ''dev1''), (''userAgent'', JStr ''ua''), (''url'', JStr ''u'')])])),
      DeviceSends 1 (''t2'', ''t2'') (Parsed (JObj [(''type'', JStr ''log''), (''n'', JNum 1)])),
      DeviceSends 1 (''t3'', ''t3'') (Parsed (JObj [(''type'', JStr ''log''), (''n'', JNum 2)])),
      DeviceSends 1 (''t4'', ''t4'') (Parsed (JObj [(''type'', JStr ''log''), (''n'', JNum 3)])),
      SubscriberConnects 2,
      SubscriberSends 2 (Parsed (JObj [(''type'', JStr ''device.request_events''), (''deviceId'', JStr ''dev1'')])),
      SubscriberSends 2 (Parsed (JObj [(''type'', JStr ''device.send_command''), (''deviceId'', JStr ''dev1''),
        (''command'', JStr ''reload''), (''payload'', JObj [(''hard'', JBool True)])]))]))
   = [(2, JObj [(''type'', JStr ''devices.list''),
                (''payload'', JArr [JObj [(''deviceId'', JStr ''dev1''), (''userAgent'', JStr ''ua''),
                   (''url'', JStr ''u''), (''connectedAt'', JStr ''t0''), (''lastSeen'', JStr ''t4'')]])]),
      (2, JObj [(''type'', JStr ''device.events''),
                (''payload'', JObj [(''deviceId'', JStr ''dev1''),
                   (''events'', JArr
                      [JObj [(''type'', JStr ''log''), (''n'', JNum 1), (''deviceId'', JStr ''dev1'')],
                       JObj [(''type'', JStr ''log''), (''n'', JNum 2), (''deviceId'', JStr ''dev1'')],
                       JObj [(''type'', JStr ''log''), (''n'', JNum 3), (''deviceId'', JStr ''dev1'')]])])]),
      (1, JObj [(''type'', JStr ''command''), (''command'', JStr ''reload''),
                (''payload'', JObj [(''hard'', JBool True)])])]"
  by (simp add: run_def start_def init_server_def on_message_def authenticate_def store_event_def
      stamped_def get_events_def broadcast_eq delivered_def Let_def subscriber_connect_def
      on_command_def send_def)

end
